theory Spec2Isabelle
  imports Main "HOL-Library.Word" "HOL-Library.Signed_Division"
begin

unbundle bit_operations_syntax

section \<open>Capabilities from an OCI runtime spec (package specutils)\<close>

subsection \<open>The capability enumeration\<close>

text \<open>
  The source refers to the capabilities through the identifiers \<open>linux.CAP_CHOWN\<close> ...
  \<open>linux.CAP_AUDIT_READ\<close> of package \<open>pkg/abi/linux\<close>. Each identifier is one constructor.
\<close>

datatype Capability =
    CAP_CHOWN
  | CAP_DAC_OVERRIDE
  | CAP_DAC_READ_SEARCH
  | CAP_FOWNER
  | CAP_FSETID
  | CAP_KILL
  | CAP_SETGID
  | CAP_SETUID
  | CAP_SETPCAP
  | CAP_LINUX_IMMUTABLE
  | CAP_NET_BIND_SERVICE
  | CAP_NET_BROADCAST
  | CAP_NET_ADMIN
  | CAP_NET_RAW
  | CAP_IPC_LOCK
  | CAP_IPC_OWNER
  | CAP_SYS_MODULE
  | CAP_SYS_RAWIO
  | CAP_SYS_CHROOT
  | CAP_SYS_PTRACE
  | CAP_SYS_PACCT
  | CAP_SYS_ADMIN
  | CAP_SYS_BOOT
  | CAP_SYS_NICE
  | CAP_SYS_RESOURCE
  | CAP_SYS_TIME
  | CAP_SYS_TTY_CONFIG
  | CAP_MKNOD
  | CAP_LEASE
  | CAP_AUDIT_WRITE
  | CAP_AUDIT_CONTROL
  | CAP_SETFCAP
  | CAP_MAC_OVERRIDE
  | CAP_MAC_ADMIN
  | CAP_SYSLOG
  | CAP_WAKE_ALARM
  | CAP_BLOCK_SUSPEND
  | CAP_AUDIT_READ

text \<open>
  Modelled from the spec: the numeric values of the \<open>linux.CAP_*\<close> constants
  (\<open>pkg/abi/linux\<close> is not among the sources). The spec describes a capability as
  "an enumerated value (ordinal 0..N-1, N about 38)"; the ordinals below number the
  38 identifiers in the order of the table, which is the numbering of Linux.
\<close>

fun ordinal :: "Capability \<Rightarrow> nat" where
  "ordinal CAP_CHOWN = 0"
| "ordinal CAP_DAC_OVERRIDE = 1"
| "ordinal CAP_DAC_READ_SEARCH = 2"
| "ordinal CAP_FOWNER = 3"
| "ordinal CAP_FSETID = 4"
| "ordinal CAP_KILL = 5"
| "ordinal CAP_SETGID = 6"
| "ordinal CAP_SETUID = 7"
| "ordinal CAP_SETPCAP = 8"
| "ordinal CAP_LINUX_IMMUTABLE = 9"
| "ordinal CAP_NET_BIND_SERVICE = 10"
| "ordinal CAP_NET_BROADCAST = 11"
| "ordinal CAP_NET_ADMIN = 12"
| "ordinal CAP_NET_RAW = 13"
| "ordinal CAP_IPC_LOCK = 14"
| "ordinal CAP_IPC_OWNER = 15"
| "ordinal CAP_SYS_MODULE = 16"
| "ordinal CAP_SYS_RAWIO = 17"
| "ordinal CAP_SYS_CHROOT = 18"
| "ordinal CAP_SYS_PTRACE = 19"
| "ordinal CAP_SYS_PACCT = 20"
| "ordinal CAP_SYS_ADMIN = 21"
| "ordinal CAP_SYS_BOOT = 22"
| "ordinal CAP_SYS_NICE = 23"
| "ordinal CAP_SYS_RESOURCE = 24"
| "ordinal CAP_SYS_TIME = 25"
| "ordinal CAP_SYS_TTY_CONFIG = 26"
| "ordinal CAP_MKNOD = 27"
| "ordinal CAP_LEASE = 28"
| "ordinal CAP_AUDIT_WRITE = 29"
| "ordinal CAP_AUDIT_CONTROL = 30"
| "ordinal CAP_SETFCAP = 31"
| "ordinal CAP_MAC_OVERRIDE = 32"
| "ordinal CAP_MAC_ADMIN = 33"
| "ordinal CAP_SYSLOG = 34"
| "ordinal CAP_WAKE_ALARM = 35"
| "ordinal CAP_BLOCK_SUSPEND = 36"
| "ordinal CAP_AUDIT_READ = 37"

subsection \<open>The static name table\<close>

text \<open>
  \<open>var capFromName = map[string]linux.Capability{...}\<close>: the entries of the map literal,
  in the order of the source. A Go map literal cannot repeat a key, so the lookup is
  the lookup of the association list.
\<close>

definition capFromName_table :: "(string \<times> Capability) list" where
  "capFromName_table =
    [(''CAP_CHOWN'', CAP_CHOWN),
     (''CAP_DAC_OVERRIDE'', CAP_DAC_OVERRIDE),
     (''CAP_DAC_READ_SEARCH'', CAP_DAC_READ_SEARCH),
     (''CAP_FOWNER'', CAP_FOWNER),
     (''CAP_FSETID'', CAP_FSETID),
     (''CAP_KILL'', CAP_KILL),
     (''CAP_SETGID'', CAP_SETGID),
     (''CAP_SETUID'', CAP_SETUID),
     (''CAP_SETPCAP'', CAP_SETPCAP),
     (''CAP_LINUX_IMMUTABLE'', CAP_LINUX_IMMUTABLE),
     (''CAP_NET_BIND_SERVICE'', CAP_NET_BIND_SERVICE),
     (''CAP_NET_BROADCAST'', CAP_NET_BROADCAST),
     (''CAP_NET_ADMIN'', CAP_NET_ADMIN),
     (''CAP_NET_RAW'', CAP_NET_RAW),
     (''CAP_IPC_LOCK'', CAP_IPC_LOCK),
     (''CAP_IPC_OWNER'', CAP_IPC_OWNER),
     (''CAP_SYS_MODULE'', CAP_SYS_MODULE),
     (''CAP_SYS_RAWIO'', CAP_SYS_RAWIO),
     (''CAP_SYS_CHROOT'', CAP_SYS_CHROOT),
     (''CAP_SYS_PTRACE'', CAP_SYS_PTRACE),
     (''CAP_SYS_PACCT'', CAP_SYS_PACCT),
     (''CAP_SYS_ADMIN'', CAP_SYS_ADMIN),
     (''CAP_SYS_BOOT'', CAP_SYS_BOOT),
     (''CAP_SYS_NICE'', CAP_SYS_NICE),
     (''CAP_SYS_RESOURCE'', CAP_SYS_RESOURCE),
     (''CAP_SYS_TIME'', CAP_SYS_TIME),
     (''CAP_SYS_TTY_CONFIG'', CAP_SYS_TTY_CONFIG),
     (''CAP_MKNOD'', CAP_MKNOD),
     (''CAP_LEASE'', CAP_LEASE),
     (''CAP_AUDIT_WRITE'', CAP_AUDIT_WRITE),
     (''CAP_AUDIT_CONTROL'', CAP_AUDIT_CONTROL),
     (''CAP_SETFCAP'', CAP_SETFCAP),
     (''CAP_MAC_OVERRIDE'', CAP_MAC_OVERRIDE),
     (''CAP_MAC_ADMIN'', CAP_MAC_ADMIN),
     (''CAP_SYSLOG'', CAP_SYSLOG),
     (''CAP_WAKE_ALARM'', CAP_WAKE_ALARM),
     (''CAP_BLOCK_SUSPEND'', CAP_BLOCK_SUSPEND),
     (''CAP_AUDIT_READ'', CAP_AUDIT_READ)]"

definition capFromName :: "string \<rightharpoonup> Capability" where
  "capFromName = map_of capFromName_table"


subsection \<open>Capability sets (package auth)\<close>

text \<open>
  \<open>auth.CapabilitySet\<close> is used by the source as an integer (\<open>capsFromNames\<close> returns
  the literal \<open>0\<close> for it). The spec calls it "a fixed-width bitmask indexed by
  Capability ordinal"; the width taken here is 64 bits.
\<close>

type_synonym CapabilitySet = "64 word"

text \<open>
  Modelled from the spec: \<open>capability_set.go\<close> of package auth is not among the sources.
  The spec gives a set "created empty or from a list of Capabilities", with a
  "membership test, union, intersection". \<open>CapabilitySetOfMany\<close> is the constructor the
  source calls; it sets the bit of each listed capability's ordinal.
\<close>

definition empty_set :: CapabilitySet where
  "empty_set = 0"

definition CapabilitySetOf :: "Capability \<Rightarrow> CapabilitySet" where
  "CapabilitySetOf cp = push_bit (ordinal cp) 1"

definition CapabilitySetOfMany :: "Capability list \<Rightarrow> CapabilitySet" where
  "CapabilitySetOfMany cps = fold (\<lambda>cp cs. cs OR CapabilitySetOf cp) cps 0"

definition contains :: "CapabilitySet \<Rightarrow> Capability \<Rightarrow> bool" where
  "contains cs cp = (cs AND CapabilitySetOf cp \<noteq> 0)"

definition union :: "CapabilitySet \<Rightarrow> CapabilitySet \<Rightarrow> CapabilitySet" where
  "union x y = x OR y"

definition intersect :: "CapabilitySet \<Rightarrow> CapabilitySet \<Rightarrow> CapabilitySet" where
  "intersect x y = x AND y"

text \<open>
  Modelled from the spec: the declaration of \<open>auth.TaskCapabilities\<close> is not among the
  sources. The spec gives it "four CapabilitySet values"; the field names are the ones
  \<open>Capabilities\<close> assigns.
\<close>

record TaskCapabilities =
  BoundingCaps :: CapabilitySet
  EffectiveCaps :: CapabilitySet
  InheritableCaps :: CapabilitySet
  PermittedCaps :: CapabilitySet

subsection \<open>Parsing capability names\<close>

text \<open>
  \<open>specs.LinuxCapabilities\<close> of the OCI runtime spec: five lists of names. The source
  reads four of them (ambient capabilities are a TODO there).
\<close>

record LinuxCapabilities =
  Bounding :: "string list"
  Effective :: "string list"
  Inheritable :: "string list"
  Permitted :: "string list"
  Ambient :: "string list"

text \<open>
  The only error the parse produces is \<open>fmt.Errorf("unknown capability %q", n)\<close>; the
  constructor carries the name \<open>n\<close> that the message quotes.
\<close>

datatype error = UnknownCapability string

text \<open>
  \<open>capsFromNames\<close>: the loop over \<open>names\<close> with the slice \<open>caps\<close> as accumulator. A Go
  function with results \<open>(auth.CapabilitySet, error)\<close> returns both values; a \<open>nil\<close>
  error is \<open>None\<close>.
\<close>

fun capsFromNames_loop :: "string list \<Rightarrow> Capability list \<Rightarrow> CapabilitySet \<times> error option" where
  "capsFromNames_loop [] caps = (CapabilitySetOfMany caps, None)"
| "capsFromNames_loop (n # ns) caps =
     (case capFromName n of
        None \<Rightarrow> (0, Some (UnknownCapability n))
      | Some c \<Rightarrow> capsFromNames_loop ns (caps @ [c]))"

definition capsFromNames :: "string list \<Rightarrow> CapabilitySet \<times> error option" where
  "capsFromNames names = capsFromNames_loop names []"

text \<open>
  \<open>Capabilities\<close>: the argument is a pointer (\<open>None\<close> is \<open>nil\<close>), and so is the first
  result. Each \<open>if caps.X, err = capsFromNames(...); err != nil\<close> stores the set and
  tests the error.
\<close>

definition Capabilities :: "LinuxCapabilities option \<Rightarrow> TaskCapabilities option \<times> error option" where
  "Capabilities specCaps =
     (let caps = \<lparr>BoundingCaps = 0, EffectiveCaps = 0, InheritableCaps = 0, PermittedCaps = 0\<rparr> in
      case specCaps of
        None \<Rightarrow> (Some caps, None)
      | Some sc \<Rightarrow>
          (case capsFromNames (Bounding sc) of
             (b, Some err) \<Rightarrow> (None, Some err)
           | (b, None) \<Rightarrow>
          (case capsFromNames (Effective sc) of
             (e, Some err) \<Rightarrow> (None, Some err)
           | (e, None) \<Rightarrow>
          (case capsFromNames (Inheritable sc) of
             (i, Some err) \<Rightarrow> (None, Some err)
           | (i, None) \<Rightarrow>
          (case capsFromNames (Permitted sc) of
             (p, Some err) \<Rightarrow> (None, Some err)
           | (p, None) \<Rightarrow>
               (Some (caps\<lparr>BoundingCaps := b, EffectiveCaps := e,
                           InheritableCaps := i, PermittedCaps := p\<rparr>), None))))))"

section \<open>Process listing (package control)\<close>

text \<open>
  \<open>time.Duration\<close> is Go's \<open>int64\<close>: addition and multiplication wrap around, and the
  comparisons are signed.
\<close>

type_synonym Duration = "64 word"

text \<open>
  Go's integer quotient \<open>a / b\<close> on \<open>int64\<close>: it truncates towards zero and panics
  when the divisor is zero (\<open>None\<close>).
\<close>

definition go_div :: "Duration \<Rightarrow> Duration \<Rightarrow> Duration option" where
  "go_div a b = (if b = 0 then None else Some (word_of_int (sint a sdiv sint b)))"

text \<open>
  \<open>usage.CPUStats\<close>: the declaration is not among the sources; the two fields are the
  ones \<open>percentCPU\<close> reads, both of type \<open>time.Duration\<close>.
\<close>

record CPUStats =
  UserTime :: Duration
  SysTime :: Duration

text \<open>
  \<open>percentCPU\<close>. The method \<open>Sub\<close> of \<open>ktime.Time\<close> is not among the sources: it is
  the parameter \<open>Sub\<close>, called as \<open>now.Sub(startTime)\<close>, and the type of times is left
  open. The result is \<open>None\<close> when the division panics. \<open>int32(percentCPU)\<close> keeps the
  low 32 bits.
\<close>

definition percentCPU :: "('t \<Rightarrow> 't \<Rightarrow> Duration) \<Rightarrow> CPUStats \<Rightarrow> 't \<Rightarrow> 't \<Rightarrow> 32 word option" where
  "percentCPU Sub stats startTime now =
     (let total = UserTime stats + SysTime stats;
          lifetime = Sub now startTime
      in if lifetime \<le>s 0 then Some 0
         else (case go_div (total * 100) lifetime of
                 None \<Rightarrow> None
               | Some percentCPU \<Rightarrow>
                   (let percentCPU = (if 99 <s percentCPU then 99 else percentCPU)
                    in Some (ucast percentCPU))))"

section \<open>Locating the executable (package specutils)\<close>

subsection \<open>Functions of Go's standard library\<close>

text \<open>
  \<open>strings.HasPrefix\<close>, \<open>strings.TrimPrefix\<close>, \<open>strings.Join\<close>, and \<open>strings.Split\<close> for a
  separator of one byte (\<open>Split\<close> of the empty string is the list of one empty string).
\<close>

definition HasPrefix :: "string \<Rightarrow> string \<Rightarrow> bool" where
  "HasPrefix s prefix = (length prefix \<le> length s \<and> take (length prefix) s = prefix)"

definition TrimPrefix :: "string \<Rightarrow> string \<Rightarrow> string" where
  "TrimPrefix s prefix = (if HasPrefix s prefix then drop (length prefix) s else s)"

fun strings_Join :: "string list \<Rightarrow> string \<Rightarrow> string" where
  "strings_Join [] sep = []"
| "strings_Join [a] sep = a"
| "strings_Join (a # b # rest) sep = a @ sep @ strings_Join (b # rest) sep"

fun Split :: "string \<Rightarrow> char \<Rightarrow> string list" where
  "Split [] sep = [Nil]"
| "Split (c # s) sep =
     (if c = sep then [] # Split s sep
      else (case Split s sep of [] \<Rightarrow> [c # Nil] | x # xs \<Rightarrow> (c # x) # xs))"

text \<open>
  \<open>filepath.Clean\<close> on Unix (no volume name, separator \<open>/\<close>). The output buffer of the
  Go code is the list \<open>out\<close>, whose length is the write index \<open>out.w\<close>; \<open>backtrack_w\<close>
  is the inner loop that moves \<open>out.w\<close> back to the previous separator when a \<open>..\<close>
  element removes the element before it.
\<close>

fun backtrack_w :: "string \<Rightarrow> nat \<Rightarrow> nat \<Rightarrow> nat" where
  "backtrack_w out 0 dotdot = 0"
| "backtrack_w out (Suc w) dotdot =
     (if Suc w > dotdot \<and> out ! Suc w \<noteq> CHR ''/'' then backtrack_w out w dotdot else Suc w)"

function Clean_loop :: "bool \<Rightarrow> string \<Rightarrow> string \<Rightarrow> nat \<Rightarrow> string" where
  "Clean_loop rooted [] out dotdot = out"
| "Clean_loop rooted (c # rest) out dotdot =
     (if c = CHR ''/'' then Clean_loop rooted rest out dotdot
      else if c = CHR ''.'' \<and> (rest = [] \<or> hd rest = CHR ''/'') then
        Clean_loop rooted rest out dotdot
      else if c = CHR ''.'' \<and> hd rest = CHR ''.'' \<and> (tl rest = [] \<or> hd (tl rest) = CHR ''/'') then
        (if length out > dotdot then
           Clean_loop rooted (tl rest) (take (backtrack_w out (length out - 1) dotdot) out) dotdot
         else if \<not> rooted then
           Clean_loop rooted (tl rest) ((if length out > 0 then out @ ''/'' else out) @ ''..'')
             (length ((if length out > 0 then out @ ''/'' else out) @ ''..''))
         else Clean_loop rooted (tl rest) out dotdot)
      else
        Clean_loop rooted (dropWhile (\<lambda>x. x \<noteq> CHR ''/'') rest)
          ((if rooted \<and> length out \<noteq> 1 \<or> \<not> rooted \<and> length out \<noteq> 0 then out @ ''/'' else out)
             @ c # takeWhile (\<lambda>x. x \<noteq> CHR ''/'') rest)
          dotdot)"
  by pat_completeness auto
termination
  by (relation "measure (\<lambda>(rooted, path, out, dotdot). length path)")
     (auto intro: le_imp_less_Suc length_dropWhile_le)

definition Clean :: "string \<Rightarrow> string" where
  "Clean path =
     (if path = [] then ''.''
      else let rooted = (hd path = CHR ''/'');
               out = (if rooted then Clean_loop rooted (tl path) ''/'' 1
                      else Clean_loop rooted path [] 0)
           in if out = [] then ''.'' else out)"

text \<open>
  \<open>filepath.Join\<close>: the elements from the first non-empty one on, joined with \<open>/\<close> and
  cleaned; the empty string when every element is empty.
\<close>

fun Join :: "string list \<Rightarrow> string" where
  "Join [] = []"
| "Join (e # elem) = (if e \<noteq> [] then Clean (strings_Join (e # elem) ''/'') else Join elem)"

subsection \<open>GetExecutablePath\<close>

text \<open>
  The first loop of \<open>GetExecutablePath\<close>: the value of the first \<open>PATH=\<close> entry of the
  environment, split at the colons; \<open>path\<close> stays \<open>nil\<close> when there is none.
\<close>

fun get_PATH :: "string list \<Rightarrow> string list" where
  "get_PATH [] = []"
| "get_PATH (e # env) =
     (if HasPrefix e ''PATH='' then Split (TrimPrefix e ''PATH='') CHR '':'' else get_PATH env)"

text \<open>
  The second loop: the first directory \<open>p\<close> of \<open>path\<close> for which \<open>os.Stat\<close> of
  \<open>filepath.Join(root, p, exec)\<close> returns no error. The file system is the predicate
  \<open>stat\<close>: the paths for which \<open>os.Stat\<close> succeeds.
\<close>

fun search_PATH :: "(string \<Rightarrow> bool) \<Rightarrow> string \<Rightarrow> string \<Rightarrow> string list \<Rightarrow> string option" where
  "search_PATH stat exec root [] = None"
| "search_PATH stat exec root (p # path) =
     (if stat (Join [root, p, exec]) then Some (Join [''/'', p, exec])
      else search_PATH stat exec root path)"

text \<open>
  \<open>GetExecutablePath\<close> returns a string and an error; the warning it logs when nothing
  is found is not modelled.
\<close>

definition GetExecutablePath ::
    "(string \<Rightarrow> bool) \<Rightarrow> string \<Rightarrow> string \<Rightarrow> string list \<Rightarrow> string \<times> error option" where
  "GetExecutablePath stat exec0 root env =
     (let exec = Clean exec0 in
      if CHR ''/'' \<in> set exec then (exec, None)
      else (case search_PATH stat exec root (get_PATH env) of
              Some found \<Rightarrow> (found, None)
            | None \<Rightarrow> (exec, None)))"

section \<open>Namespace identity maps (package auth)\<close>

text \<open>
  Modelled from the spec: the identity maps of package auth (\<open>id_map.go\<close> and the
  generated \<open>id_map_set.go\<close>, \<open>id_map_range.go\<close>) are not among the sources. The spec gives
  a NumericID as "a 32-bit unsigned identifier" and an IdentityRange as "a half-open
  interval [start, start+length) of NumericID values".
\<close>

type_synonym NumericID = "32 word"

record IdentityRange =
  range_start :: NumericID
  range_length :: NumericID

text \<open>
  Modelled from the spec: membership in the half-open interval, and the overlap of two
  intervals. The bounds are compared as numbers, so that \<open>start + length\<close> does not wrap.
\<close>

definition in_range :: "IdentityRange \<Rightarrow> NumericID \<Rightarrow> bool" where
  "in_range r x = (unat (range_start r) \<le> unat x \<and> unat x < unat (range_start r) + unat (range_length r))"

definition overlaps :: "IdentityRange \<Rightarrow> IdentityRange \<Rightarrow> bool" where
  "overlaps r s =
     (unat (range_start r) < unat (range_start s) + unat (range_length s) \<and>
      unat (range_start s) < unat (range_start r) + unat (range_length r))"

text \<open>
  Modelled from the spec: an IdentityMap is "an ordered set of non-overlapping
  (IdentityRange local, IdentityRange parent) pairs sorted by local-range start".
\<close>

type_synonym IdentityMap = "(IdentityRange \<times> IdentityRange) list"

datatype map_error = OverlappingRange

text \<open>
  Modelled from the spec: \<open>build\<close> sorts the pairs by the start of the local range and
  "fails if any local-range or parent-range interval overlaps another".
\<close>

fun non_overlapping :: "IdentityRange list \<Rightarrow> bool" where
  "non_overlapping [] = True"
| "non_overlapping (r # rs) = (list_all (\<lambda>s. \<not> overlaps r s) rs \<and> non_overlapping rs)"

definition build :: "(IdentityRange \<times> IdentityRange) list \<Rightarrow> map_error + IdentityMap" where
  "build ranges =
     (let sorted = sort_key (\<lambda>e. unat (range_start (fst e))) ranges
      in if non_overlapping (map fst sorted) \<and> non_overlapping (map snd sorted)
         then Inr sorted else Inl OverlappingRange)"

text \<open>
  Modelled from the spec: the point lookup finds "the unique range whose interval
  contains the queried id" and keeps the offset into it (the spec's example sends 50 in
  [0,100) to 1050 in [1000,1100)); "if no covering range exists, found = false".
\<close>

definition translate :: "IdentityMap \<Rightarrow> NumericID \<Rightarrow> NumericID \<times> bool" where
  "translate m local_id =
     (case find (\<lambda>e. in_range (fst e) local_id) m of
        None \<Rightarrow> (0, False)
      | Some e \<Rightarrow> (range_start (snd e) + (local_id - range_start (fst e)), True))"

definition reverse_translate :: "IdentityMap \<Rightarrow> NumericID \<Rightarrow> NumericID \<times> bool" where
  "reverse_translate m parent_id =
     (case find (\<lambda>e. in_range (snd e) parent_id) m of
        None \<Rightarrow> (0, False)
      | Some e \<Rightarrow> (range_start (fst e) + (parent_id - range_start (snd e)), True))"

text \<open>
  Modelled from the spec: a triple \<open>(container_id, host_id, length)\<close> of the mapping block
  becomes one range pair. \<open>pair_ok\<close> collects what the data model asks of a pair: a
  positive length, the same on both sides, and intervals that stay within the 32-bit
  identifiers.
\<close>

definition range_pair :: "NumericID \<Rightarrow> NumericID \<Rightarrow> NumericID \<Rightarrow> IdentityRange \<times> IdentityRange" where
  "range_pair container_id host_id n =
     (\<lparr>range_start = container_id, range_length = n\<rparr>, \<lparr>range_start = host_id, range_length = n\<rparr>)"

definition pair_ok :: "IdentityRange \<times> IdentityRange \<Rightarrow> bool" where
  "pair_ok e =
     (0 < range_length (fst e) \<and> range_length (fst e) = range_length (snd e) \<and>
      unat (range_start (fst e)) + unat (range_length (fst e)) \<le> 2 ^ 32 \<and>
      unat (range_start (snd e)) + unat (range_length (snd e)) \<le> 2 ^ 32)"

section \<open>Verified properties\<close>

subsection \<open>The name table and capability sets\<close>

lemma table_length: "length capFromName_table = 38"
  by (simp add: capFromName_table_def)

lemma table_distinct_names: "distinct (map fst capFromName_table)"
  by (simp add: capFromName_table_def)

lemma table_distinct_caps: "distinct (map snd capFromName_table)"
  by (simp add: capFromName_table_def)

lemma table_prefix: "\<forall>n\<in>set (map fst capFromName_table). take 4 n = ''CAP_''"
  by (simp add: capFromName_table_def)

lemma table_nth_ordinal: "map snd capFromName_table ! ordinal c = c"
  by (cases c) (simp_all add: capFromName_table_def)

lemma ordinal_less: "ordinal c < 38"
  by (cases c) simp_all

lemma ordinal_inj:
  assumes "ordinal a = ordinal b"
  shows "a = b"
proof -
  have "map snd capFromName_table ! ordinal a = map snd capFromName_table ! ordinal b"
    by (simp only: assms)
  then show ?thesis
    by (simp only: table_nth_ordinal)
qed

lemma dom_capFromName: "dom capFromName = set (map fst capFromName_table)"
  by (simp add: capFromName_def dom_map_of_conv_image_fst)

lemma card_dom_capFromName: "card (dom capFromName) = 38"
  using table_distinct_names table_length
  by (simp add: dom_capFromName distinct_card del: set_map)

lemma capFromName_inj:
  assumes "capFromName n1 = Some c" and "capFromName n2 = Some c"
  shows "n1 = n2"
proof -
  have "(n1, c) \<in> set capFromName_table" "(n2, c) \<in> set capFromName_table"
    using assms by (auto simp: capFromName_def dest: map_of_SomeD)
  moreover have "inj_on snd (set capFromName_table)"
    using table_distinct_caps by (simp add: distinct_map)
  ultimately have "(n1, c) = (n2, c)"
    by (rule inj_onD [rotated 2]) simp
  then show ?thesis by simp
qed

lemma contains_bit: "contains cs c = bit cs (ordinal c)"
  by (simp add: contains_def CapabilitySetOf_def and_exp_eq_0_iff_not_bit)

lemma bit_fold_or:
  "bit (fold (\<lambda>cp cs. cs OR CapabilitySetOf cp) cps (init::CapabilitySet)) k
     \<longleftrightarrow> bit init k \<or> (\<exists>c\<in>set cps. ordinal c = k)"
proof (induction cps arbitrary: init)
  case Nil
  show ?case by simp
next
  case (Cons c cps)
  have "bit (CapabilitySetOf c) k \<longleftrightarrow> ordinal c = k"
    using ordinal_less [of c] by (auto simp: CapabilitySetOf_def bit_exp_iff)
  then show ?case
    by (auto simp: Cons.IH bit_or_iff)
qed

lemma contains_CapabilitySetOfMany: "contains (CapabilitySetOfMany cps) c \<longleftrightarrow> c \<in> set cps"
  using ordinal_inj by (auto simp: contains_bit CapabilitySetOfMany_def bit_fold_or)

lemma loop_unknown:
  "(\<forall>n\<in>set pre. capFromName n \<noteq> None) \<Longrightarrow> capFromName u = None \<Longrightarrow>
   capsFromNames_loop (pre @ u # post) caps = (0, Some (UnknownCapability u))"
  by (induction pre arbitrary: caps) auto

lemma loop_known:
  "(\<forall>n\<in>set ns. capFromName n \<noteq> None) \<Longrightarrow>
   capsFromNames_loop ns caps = (CapabilitySetOfMany (caps @ map (the \<circ> capFromName) ns), None)"
  by (induction ns arbitrary: caps) auto

lemma loop_find_Some:
  "find (\<lambda>n. capFromName n = None) ns = Some u \<Longrightarrow>
   capsFromNames_loop ns caps = (0, Some (UnknownCapability u))"
  by (induction ns arbitrary: caps) (auto split: if_splits)

lemma loop_find_None:
  "find (\<lambda>n. capFromName n = None) ns = None \<Longrightarrow>
   capsFromNames_loop ns caps = (CapabilitySetOfMany (caps @ map (the \<circ> capFromName) ns), None)"
  by (induction ns arbitrary: caps) (auto split: if_splits)

lemma capsFromNames_find_Some:
  "find (\<lambda>n. capFromName n = None) ns = Some u \<Longrightarrow>
   capsFromNames ns = (0, Some (UnknownCapability u))"
  by (simp add: capsFromNames_def loop_find_Some)

lemma capsFromNames_find_None:
  "find (\<lambda>n. capFromName n = None) ns = None \<Longrightarrow>
   capsFromNames ns = (CapabilitySetOfMany (map (the \<circ> capFromName) ns), None)"
  by (simp add: capsFromNames_def loop_find_None)

text \<open>
  Claim C1. Whenever a list of names holds a name that is not in the table,
  \<open>capsFromNames\<close> fails: the error carries the first such name (every name before it
  is in the table), wherever it stands in the list, and the set returned with the error
  is the zero set.
\<close>
theorem capsFromNames_unknown:
  assumes "\<exists>n\<in>set names. capFromName n = None"
  shows "\<exists>pre u post. names = pre @ u # post \<and> (\<forall>n\<in>set pre. capFromName n \<noteq> None) \<and>
           capFromName u = None \<and> capsFromNames names = (0, Some (UnknownCapability u))"
proof -
  from assms obtain pre u post where
    split: "names = pre @ u # post" "capFromName u = None" "\<forall>n\<in>set pre. capFromName n \<noteq> None"
    by (auto dest!: split_list_first_prop [where P = "\<lambda>n. capFromName n = None"])
  then have "capsFromNames names = (0, Some (UnknownCapability u))"
    by (simp add: capsFromNames_def loop_unknown)
  with split show ?thesis by blast
qed

theorem capsFromNames_unknown_witness:
  "\<exists>pre u post. [''CAP_KILL'', ''cap_kill'', ''CAP_CHOWN'', ''nope''] = pre @ u # post \<and>
     (\<forall>n\<in>set pre. capFromName n \<noteq> None) \<and> capFromName u = None \<and>
     capsFromNames [''CAP_KILL'', ''cap_kill'', ''CAP_CHOWN'', ''nope''] = (0, Some (UnknownCapability u))"
proof -
  have "capFromName ''cap_kill'' = None"
    by (simp add: capFromName_def capFromName_table_def)
  then have "\<exists>n\<in>set [''CAP_KILL'', ''cap_kill'', ''CAP_CHOWN'', ''nope'']. capFromName n = None"
    by simp
  then show ?thesis by (rule capsFromNames_unknown)
qed

text \<open>
  Claim C2. For a \<open>nil\<close> capability block, \<open>Capabilities\<close> returns a \<open>TaskCapabilities\<close>
  whose bounding, effective, inheritable and permitted sets are all empty (no capability
  is a member of the empty set), and a \<open>nil\<close> error.
\<close>
theorem Capabilities_nil:
  "Capabilities None =
     (Some \<lparr>BoundingCaps = empty_set, EffectiveCaps = empty_set,
            InheritableCaps = empty_set, PermittedCaps = empty_set\<rparr>, None)
   \<and> \<not> contains empty_set c"
  by (simp add: Capabilities_def empty_set_def contains_def)

text \<open>
  Claim C3. When every name of the list is in the table, \<open>capsFromNames\<close> succeeds, and
  the set it returns contains the capability of a table name exactly when that name is
  in the list.
\<close>
theorem capsFromNames_known:
  assumes "\<forall>n\<in>set names. capFromName n \<noteq> None"
  shows "\<exists>cs. capsFromNames names = (cs, None) \<and>
           (\<forall>n c. capFromName n = Some c \<longrightarrow> (contains cs c \<longleftrightarrow> n \<in> set names))"
proof -
  let ?cs = "CapabilitySetOfMany (map (the \<circ> capFromName) names)"
  have eq: "capsFromNames names = (?cs, None)"
    using assms by (simp add: capsFromNames_def loop_known)
  have "contains ?cs c \<longleftrightarrow> n \<in> set names" if n: "capFromName n = Some c" for n c
  proof
    assume "contains ?cs c"
    then obtain m where m: "m \<in> set names" "c = the (capFromName m)"
      by (auto simp: contains_CapabilitySetOfMany)
    with assms have "capFromName m = Some c" by auto
    with n have "m = n" by (rule capFromName_inj [rotated])
    with m show "n \<in> set names" by simp
  next
    assume "n \<in> set names"
    then have "the (capFromName n) \<in> set (map (the \<circ> capFromName) names)" by auto
    with n show "contains ?cs c" by (simp add: contains_CapabilitySetOfMany)
  qed
  with eq show ?thesis by blast
qed


theorem capsFromNames_known_witness:
  "capFromName ''CAP_CHOWN'' \<noteq> None \<and> capFromName ''CAP_KILL'' \<noteq> None \<and>
   (\<exists>cs. capsFromNames [''CAP_CHOWN'', ''CAP_KILL''] = (cs, None) \<and>
      contains cs CAP_CHOWN \<and> contains cs CAP_KILL \<and> \<not> contains cs CAP_SETUID)"
proof -
  have known: "\<forall>n\<in>set [''CAP_CHOWN'', ''CAP_KILL'']. capFromName n \<noteq> None"
    by (simp add: capFromName_def capFromName_table_def)
  have names: "capFromName ''CAP_CHOWN'' = Some CAP_CHOWN" "capFromName ''CAP_KILL'' = Some CAP_KILL"
    "capFromName ''CAP_SETUID'' = Some CAP_SETUID"
    by (simp_all add: capFromName_def capFromName_table_def)
  from capsFromNames_known [OF known] names known show ?thesis
    by fastforce
qed

text \<open>
  Claim C4. When any of the four lists of a capability block holds a name that is not
  in the table, \<open>Capabilities\<close> returns \<open>nil\<close> for the \<open>TaskCapabilities\<close> together with
  an error: no partly filled value is returned.
\<close>
theorem Capabilities_unknown:
  assumes "\<exists>n \<in> set (Bounding sc) \<union> set (Effective sc) \<union> set (Inheritable sc) \<union> set (Permitted sc).
             capFromName n = None"
  shows "\<exists>err. Capabilities (Some sc) = (None, Some err)"
proof -
  have some: "\<exists>u. find (\<lambda>n. capFromName n = None) ns = Some u"
    if "\<exists>n\<in>set ns. capFromName n = None" for ns
    using that by (cases "find (\<lambda>n. capFromName n = None) ns") (auto simp: find_None_iff)
  have none: "find (\<lambda>n. capFromName n = None) ns = None"
    if "\<not> (\<exists>n\<in>set ns. capFromName n = None)" for ns
    using that by (simp add: find_None_iff)
  show ?thesis
  proof (cases "\<exists>n\<in>set (Bounding sc). capFromName n = None")
    case True
    from some [OF this] show ?thesis
      by (auto simp: Capabilities_def capsFromNames_find_Some)
  next
    case b: False
    show ?thesis
    proof (cases "\<exists>n\<in>set (Effective sc). capFromName n = None")
      case True
      from some [OF this] none [OF b] show ?thesis
        by (auto simp: Capabilities_def capsFromNames_find_Some capsFromNames_find_None)
    next
      case e: False
      show ?thesis
      proof (cases "\<exists>n\<in>set (Inheritable sc). capFromName n = None")
        case True
        from some [OF this] none [OF b] none [OF e] show ?thesis
          by (auto simp: Capabilities_def capsFromNames_find_Some capsFromNames_find_None)
      next
        case i: False
        with assms b e have "\<exists>n\<in>set (Permitted sc). capFromName n = None" by blast
        from some [OF this] none [OF b] none [OF e] none [OF i] show ?thesis
          by (auto simp: Capabilities_def capsFromNames_find_Some capsFromNames_find_None)
      qed
    qed
  qed
qed

theorem Capabilities_unknown_witness:
  "\<exists>err. Capabilities (Some \<lparr>Bounding = [''CAP_KILL''], Effective = [''CAP_KILL''],
      Inheritable = [], Permitted = [''CAP_KILL'', ''CAP_BOGUS''], Ambient = []\<rparr>) = (None, Some err)"
proof -
  have "capFromName ''CAP_BOGUS'' = None"
    by (simp add: capFromName_def capFromName_table_def)
  then show ?thesis
    by (intro Capabilities_unknown) simp
qed

text \<open>
  Claim C7. The name table has exactly 38 entries with 38 distinct names, all starting
  with \<open>CAP_\<close>, and it is injective: two different names never denote the same
  capability, nor capabilities with the same ordinal.
\<close>
theorem capFromName_table_injective:
  "length capFromName_table = 38 \<and> card (dom capFromName) = 38 \<and>
   (\<forall>n\<in>dom capFromName. take 4 n = ''CAP_'') \<and>
   inj_on capFromName (dom capFromName) \<and>
   (\<forall>n1 n2 c1 c2. capFromName n1 = Some c1 \<and> capFromName n2 = Some c2 \<and> n1 \<noteq> n2
       \<longrightarrow> c1 \<noteq> c2 \<and> ordinal c1 \<noteq> ordinal c2)"
proof -
  have "inj_on capFromName (dom capFromName)"
    by (auto intro!: inj_onI dest: capFromName_inj [rotated])
  moreover have "\<forall>n\<in>dom capFromName. take 4 n = ''CAP_''"
    using table_prefix by (simp only: dom_capFromName)
  moreover have "c1 \<noteq> c2 \<and> ordinal c1 \<noteq> ordinal c2"
    if "capFromName n1 = Some c1" "capFromName n2 = Some c2" "n1 \<noteq> n2" for n1 n2 c1 c2
    using that capFromName_inj [of n1 c1 n2] ordinal_inj [of c1 c2] by auto
  ultimately show ?thesis
    using table_length card_dom_capFromName by blast
qed

theorem capFromName_table_injective_witness:
  "''CAP_NET_ADMIN'' \<in> dom capFromName \<and> take 4 ''CAP_NET_ADMIN'' = ''CAP_'' \<and>
   capFromName ''CAP_NET_ADMIN'' = Some CAP_NET_ADMIN \<and> capFromName ''CAP_NET_RAW'' = Some CAP_NET_RAW \<and>
   ''CAP_NET_ADMIN'' \<noteq> ''CAP_NET_RAW'' \<and> CAP_NET_ADMIN \<noteq> CAP_NET_RAW \<and>
   ordinal CAP_NET_ADMIN \<noteq> ordinal CAP_NET_RAW"
proof -
  have names: "capFromName ''CAP_NET_ADMIN'' = Some CAP_NET_ADMIN"
    "capFromName ''CAP_NET_RAW'' = Some CAP_NET_RAW"
    by (simp_all add: capFromName_def capFromName_table_def)
  moreover have "''CAP_NET_ADMIN'' \<noteq> ''CAP_NET_RAW''" by simp
  ultimately show ?thesis
    using capFromName_table_injective by (auto simp: domI)
qed

text \<open>
  Claim C8. \<open>Capabilities\<close> parses the lists in the order bounding, effective,
  inheritable, permitted: the error it returns carries the first unknown name of the
  earliest list, in that order, that holds one.
\<close>
theorem Capabilities_error_order:
  "(find (\<lambda>n. capFromName n = None) (Bounding sc) = Some u
      \<longrightarrow> Capabilities (Some sc) = (None, Some (UnknownCapability u))) \<and>
   (find (\<lambda>n. capFromName n = None) (Bounding sc) = None \<and>
    find (\<lambda>n. capFromName n = None) (Effective sc) = Some u
      \<longrightarrow> Capabilities (Some sc) = (None, Some (UnknownCapability u))) \<and>
   (find (\<lambda>n. capFromName n = None) (Bounding sc) = None \<and>
    find (\<lambda>n. capFromName n = None) (Effective sc) = None \<and>
    find (\<lambda>n. capFromName n = None) (Inheritable sc) = Some u
      \<longrightarrow> Capabilities (Some sc) = (None, Some (UnknownCapability u))) \<and>
   (find (\<lambda>n. capFromName n = None) (Bounding sc) = None \<and>
    find (\<lambda>n. capFromName n = None) (Effective sc) = None \<and>
    find (\<lambda>n. capFromName n = None) (Inheritable sc) = None \<and>
    find (\<lambda>n. capFromName n = None) (Permitted sc) = Some u
      \<longrightarrow> Capabilities (Some sc) = (None, Some (UnknownCapability u)))"
  by (simp add: Capabilities_def capsFromNames_find_Some capsFromNames_find_None)

theorem Capabilities_error_order_witness:
  "Capabilities (Some \<lparr>Bounding = [''CAP_KILL''], Effective = [''CAP_CHOWN'', ''second'', ''third''],
      Inheritable = [''fourth''], Permitted = [''CAP_KILL'', ''fifth''], Ambient = [''sixth'']\<rparr>)
     = (None, Some (UnknownCapability ''second''))"
proof -
  have "capFromName ''CAP_KILL'' \<noteq> None" "capFromName ''CAP_CHOWN'' \<noteq> None" "capFromName ''second'' = None"
    by (simp_all add: capFromName_def capFromName_table_def)
  then show ?thesis
    using Capabilities_error_order
      [of "\<lparr>Bounding = [''CAP_KILL''], Effective = [''CAP_CHOWN'', ''second'', ''third''],
      Inheritable = [''fourth''], Permitted = [''CAP_KILL'', ''fifth''], Ambient = [''sixth'']\<rparr>" "''second''"]
    by simp
qed

text \<open>
  Claim C6. Union and intersection of capability sets are associative, commutative and
  idempotent, and the union with the empty set changes nothing. Together with the
  membership test they are plain functions on the bitmask, with a result for every
  argument and no error result; membership in a union or an intersection is membership
  in either or in both of the sets.
\<close>

theorem union_intersect_laws:
  "union (union x y) z = union x (union y z) \<and> union x y = union y x \<and> union x x = x \<and>
   intersect (intersect x y) z = intersect x (intersect y z) \<and>
   intersect x y = intersect y x \<and> intersect x x = x \<and>
   union x empty_set = x \<and>
   contains (union x y) c = (contains x c \<or> contains y c) \<and>
   contains (intersect x y) c = (contains x c \<and> contains y c)"
  by (simp add: union_def intersect_def empty_set_def ac_simps contains_bit bit_or_iff bit_and_iff)

theorem union_intersect_laws_witness:
  "union (CapabilitySetOf CAP_CHOWN) (CapabilitySetOf CAP_KILL)
     = union (CapabilitySetOf CAP_KILL) (CapabilitySetOf CAP_CHOWN) \<and>
   contains (union (CapabilitySetOf CAP_CHOWN) (CapabilitySetOf CAP_KILL)) CAP_KILL \<and>
   \<not> contains (intersect (CapabilitySetOf CAP_CHOWN) (CapabilitySetOf CAP_KILL)) CAP_KILL"
proof -
  note laws = union_intersect_laws [of "CapabilitySetOf CAP_CHOWN" "CapabilitySetOf CAP_KILL" 0 CAP_KILL]
  have k: "contains (CapabilitySetOf CAP_KILL) CAP_KILL" "\<not> contains (CapabilitySetOf CAP_CHOWN) CAP_KILL"
    by (simp_all add: contains_def CapabilitySetOf_def)
  from laws have "union (CapabilitySetOf CAP_CHOWN) (CapabilitySetOf CAP_KILL)
     = union (CapabilitySetOf CAP_KILL) (CapabilitySetOf CAP_CHOWN)"
    by blast
  moreover from laws k have "contains (union (CapabilitySetOf CAP_CHOWN) (CapabilitySetOf CAP_KILL)) CAP_KILL"
    by blast
  moreover from laws k have "\<not> contains (intersect (CapabilitySetOf CAP_CHOWN) (CapabilitySetOf CAP_KILL)) CAP_KILL"
    by blast
  ultimately show ?thesis
    by (intro conjI)
qed

subsection \<open>Process listing\<close>

lemma sint_word_of_int_64:
  "- (2 ^ 63) \<le> k \<Longrightarrow> k < 2 ^ 63 \<Longrightarrow> sint (word_of_int k :: 64 word) = k"
  by (simp add: sint_sbintrunc' signed_take_bit_int_eq_self)

lemma total_times_100:
  "(a + b) * 100 = (word_of_int ((sint a + sint b) * 100) :: 64 word)"
  by simp

lemma sdiv_nonneg_pos: "0 \<le> (k::int) \<Longrightarrow> 0 < l \<Longrightarrow> k sdiv l = k div l"
  by (simp add: signed_divide_int_def sgn_if)

lemma sint_ucast_small:
  assumes "0 \<le> sint (p :: 64 word)" "sint p \<le> 99"
  shows "sint (ucast p :: 32 word) = sint p"
proof -
  have "sint p < 2 ^ 64"
    using sint_lt [of p] by simp
  then have u: "uint p = sint p"
    using assms(1) by (simp add: uint_sint [of p] take_bit_int_eq_self)
  have "sint (ucast p :: 32 word) = signed_take_bit 31 (uint p)"
    by (simp add: signed_ucast_eq)
  also have "\<dots> = sint p"
    using assms by (simp add: u signed_take_bit_int_eq_self)
  finally show ?thesis .
qed

lemma percentCPU_nonpositive_lifetime:
  "Sub now startTime \<le>s 0 \<Longrightarrow> percentCPU Sub stats startTime now = Some 0"
  by (simp add: percentCPU_def)

lemma percentCPU_never_panics: "percentCPU Sub stats startTime now \<noteq> None"
  by (auto simp: percentCPU_def go_div_def Let_def)

lemma percentCPU_positive_lifetime:
  assumes "0 <s Sub now startTime"
    and "0 \<le> sint (UserTime stats) + sint (SysTime stats)"
    and "(sint (UserTime stats) + sint (SysTime stats)) * 100 < 2 ^ 63"
  shows "\<exists>r. percentCPU Sub stats startTime now = Some r \<and>
           sint r = min 99 ((sint (UserTime stats) + sint (SysTime stats)) * 100
                              div sint (Sub now startTime)) \<and>
           0 \<le> sint r \<and> sint r \<le> 99"
proof -
  define T where "T = (sint (UserTime stats) + sint (SysTime stats)) * 100"
  define L where "L = sint (Sub now startTime)"
  define q where "q = T div L"
  from assms have L: "0 < L" and T: "0 \<le> T" "T < 2 ^ 63"
    by (simp_all add: L_def T_def word_sless_alt)
  have q: "0 \<le> q" "q \<le> T"
    using L T zdiv_mono2 [of T 1 L] by (simp_all add: q_def pos_imp_zdiv_nonneg_iff)
  have sT: "sint ((UserTime stats + SysTime stats) * 100) = T"
    unfolding total_times_100 T_def [symmetric] using T by (simp add: sint_word_of_int_64)
  have nz: "Sub now startTime \<noteq> 0" "\<not> Sub now startTime \<le>s 0"
    using L by (auto simp: L_def word_sle_eq)
  have d: "go_div ((UserTime stats + SysTime stats) * 100) (Sub now startTime) = Some (word_of_int q)"
  proof -
    have "sint ((UserTime stats + SysTime stats) * 100) sdiv sint (Sub now startTime) = q"
      unfolding sT L_def [symmetric] q_def by (rule sdiv_nonneg_pos [OF T(1) L])
    then show ?thesis
      unfolding go_div_def using nz(1) by (simp only: if_False)
  qed
  have sq: "sint (word_of_int q :: 64 word) = q"
    using q T by (simp add: sint_word_of_int_64)
  define p :: "64 word" where "p = (if (99 :: 64 word) <s word_of_int q then 99 else word_of_int q)"
  have sp: "sint p = min 99 q"
    by (simp add: p_def word_sless_alt sq)
  then have range: "0 \<le> sint p" "sint p \<le> 99"
    using q by simp_all
  have r: "percentCPU Sub stats startTime now = Some (ucast p)"
    unfolding percentCPU_def Let_def d using nz(2) by (simp add: p_def)
  have "sint (ucast p :: 32 word) = min 99 q"
    using range sp by (simp add: sint_ucast_small)
  with r q show ?thesis
    by (simp add: q_def T_def L_def)
qed

text \<open>
  Claim C9, as the code has it. \<open>percentCPU\<close> never divides by zero and returns 0 when
  the lifetime \<open>now.Sub(startTime)\<close> is not positive. When the total of user and system
  time is not negative and one hundred times the total fits into \<open>int64\<close>, the result
  is a number from 0 to 99 for every pair of times: for a positive lifetime it is the
  quotient \<open>total * 100 / lifetime\<close> capped at 99.
\<close>

theorem percentCPU_range:
  "percentCPU Sub stats startTime now \<noteq> None \<and>
   (Sub now startTime \<le>s 0 \<longrightarrow> percentCPU Sub stats startTime now = Some 0) \<and>
   (0 \<le> sint (UserTime stats) + sint (SysTime stats) \<and>
    (sint (UserTime stats) + sint (SysTime stats)) * 100 < 2 ^ 63 \<longrightarrow>
      (\<exists>r. percentCPU Sub stats startTime now = Some r \<and> 0 \<le> sint r \<and> sint r \<le> 99 \<and>
           (0 <s Sub now startTime \<longrightarrow>
              sint r = min 99 ((sint (UserTime stats) + sint (SysTime stats)) * 100
                                 div sint (Sub now startTime)))))"
proof (intro conjI impI)
  show "percentCPU Sub stats startTime now \<noteq> None"
    by (rule percentCPU_never_panics)
next
  assume "Sub now startTime \<le>s 0"
  then show "percentCPU Sub stats startTime now = Some 0"
    by (rule percentCPU_nonpositive_lifetime)
next
  assume total: "0 \<le> sint (UserTime stats) + sint (SysTime stats) \<and>
    (sint (UserTime stats) + sint (SysTime stats)) * 100 < 2 ^ 63"
  show "\<exists>r. percentCPU Sub stats startTime now = Some r \<and> 0 \<le> sint r \<and> sint r \<le> 99 \<and>
           (0 <s Sub now startTime \<longrightarrow>
              sint r = min 99 ((sint (UserTime stats) + sint (SysTime stats)) * 100
                                 div sint (Sub now startTime)))"
  proof (cases "Sub now startTime \<le>s 0")
    case True
    then have "percentCPU Sub stats startTime now = Some 0"
      by (rule percentCPU_nonpositive_lifetime)
    with True show ?thesis
      by (simp add: word_sle_eq word_sless_alt)
  next
    case False
    then have "0 <s Sub now startTime"
      by (simp add: word_sle_eq word_sless_alt)
    with total percentCPU_positive_lifetime [of Sub now startTime stats] show ?thesis
      by auto
  qed
qed

theorem percentCPU_range_witness:
  "0 <s (3000 :: 64 word) - 1000 \<and>
   0 \<le> sint (300 :: 64 word) + sint (200 :: 64 word) \<and>
   (sint (300 :: 64 word) + sint (200 :: 64 word)) * 100 < 2 ^ 63 \<and>
   (\<exists>r. percentCPU (-) \<lparr>UserTime = 300, SysTime = 200\<rparr> (1000 :: 64 word) 3000 = Some r \<and>
        0 \<le> sint r \<and> sint r \<le> 99 \<and> sint r = 25)"
proof -
  have h: "0 <s (3000 :: 64 word) - 1000"
    "0 \<le> sint (300 :: 64 word) + sint (200 :: 64 word)"
    "(sint (300 :: 64 word) + sint (200 :: 64 word)) * 100 < 2 ^ 63"
    "(50000 :: int) div 2000 = 25"
    by (simp_all add: word_sless_alt)
  from percentCPU_range [of "(-)" "\<lparr>UserTime = 300, SysTime = 200\<rparr>" "1000 :: 64 word" 3000] h
  show ?thesis by simp
qed

text \<open>
  The bound does not hold for every \<open>CPUStats\<close>: with 92233720368547759 ns of user time
  (about 2.9 years) the product \<open>total * 100\<close> wraps around to a negative \<open>int64\<close>, and
  after a lifetime of 365 days the result is -292. Here \<open>Sub\<close> is the difference of the
  two times.
\<close>

theorem percentCPU_range_counterexample:
  "percentCPU (-) \<lparr>UserTime = 92233720368547759, SysTime = 0\<rparr> (0 :: 64 word) 31536000000000000
     = Some (- 292) \<and>
   sint (- 292 :: 32 word) < 0"
  by (simp add: percentCPU_def go_div_def signed_divide_int_def word_sle_eq word_sless_alt)

subsection \<open>Locating the executable\<close>

lemma GetExecutablePath_error_nil: "snd (GetExecutablePath stat exec root env) = None"
  by (simp add: GetExecutablePath_def Let_def split: option.splits)

text \<open>
  Claim C10. The claim has a name that contains a \<open>/\<close> returned cleaned and without a
  search of \<open>PATH\<close>, as the comment in the source has it ("Don't search PATH if exec is a
  path to a file (absolute or relative)"). The code tests the name after
  \<open>filepath.Clean\<close>: the relative path \<open>./foo\<close> contains a \<open>/\<close>, is cleaned to \<open>foo\<close>,
  which contains none, and is searched on \<open>PATH\<close>. With \<open>PATH=/bin\<close> and a file
  \<open>/bin/foo\<close> the result is \<open>/bin/foo\<close>, not the cleaned name; the error is \<open>nil\<close>.
\<close>

theorem GetExecutablePath_relative_path:
  "CHR ''/'' \<in> set ''./foo'' \<and> Clean ''./foo'' = ''foo'' \<and>
   GetExecutablePath ((=) ''/bin/foo'') ''./foo'' ''/'' [''PATH=/bin''] = (''/bin/foo'', None)"
  by (simp add: GetExecutablePath_def Clean_def HasPrefix_def TrimPrefix_def)

subsection \<open>Identity maps\<close>

lemma in_range_overlaps: "in_range r x \<Longrightarrow> in_range s x \<Longrightarrow> overlaps r s"
  by (auto simp: in_range_def overlaps_def)

lemma find_unique:
  assumes "non_overlapping (map f m)" "e \<in> set m" "in_range (f e) x"
  shows "find (\<lambda>e. in_range (f e) x) m = Some e"
  using assms
proof (induction m)
  case Nil
  then show ?case by simp
next
  case (Cons a m)
  show ?case
  proof (cases "in_range (f a) x")
    case True
    have "e = a"
    proof (rule ccontr)
      assume "e \<noteq> a"
      with Cons.prems have "e \<in> set m" by simp
      with Cons.prems(1) have "\<not> overlaps (f a) (f e)"
        by (auto simp: list_all_iff)
      with True Cons.prems(3) show False
        by (blast dest: in_range_overlaps)
    qed
    with True show ?thesis by simp
  next
    case False
    with Cons show ?thesis by auto
  qed
qed

lemma find_in_range:
  "find (\<lambda>e. in_range (f e) x) m = Some e \<Longrightarrow> e \<in> set m \<and> in_range (f e) x"
  by (auto simp: find_Some_iff)

lemma build_Inr:
  assumes "build ranges = Inr m"
  shows "set m = set ranges" "non_overlapping (map fst m)" "non_overlapping (map snd m)"
  using assms by (auto simp: build_def Let_def split: if_splits)

lemma shift_in_range:
  fixes a b n x :: NumericID
  assumes "unat a \<le> unat x" "unat x < unat a + unat n" "unat b + unat n \<le> 2 ^ 32"
  shows "unat b \<le> unat (b + (x - a))" "unat (b + (x - a)) < unat b + unat n"
proof -
  have le: "a \<le> x" using assms(1) by (simp add: word_le_nat_alt)
  have d: "unat (x - a) = unat x - unat a"
    using le by (rule unat_sub)
  have "unat b + unat (x - a) < 2 ^ 32"
    using assms d by simp
  then have s: "unat (b + (x - a)) = unat b + unat (x - a)"
    by (simp add: unat_add_lem [THEN iffD1])
  show "unat b \<le> unat (b + (x - a))" using s by simp
  show "unat (b + (x - a)) < unat b + unat n" using s d assms by simp
qed

lemma translate_in_parent:
  assumes "pair_ok e" "in_range (fst e) x"
  shows "in_range (snd e) (range_start (snd e) + (x - range_start (fst e)))"
  using assms shift_in_range [of "range_start (fst e)" x "range_length (fst e)" "range_start (snd e)"]
  by (simp add: pair_ok_def in_range_def)

lemma reverse_translate_in_local:
  assumes "pair_ok e" "in_range (snd e) y"
  shows "in_range (fst e) (range_start (fst e) + (y - range_start (snd e)))"
  using assms shift_in_range [of "range_start (snd e)" y "range_length (snd e)" "range_start (fst e)"]
  by (auto simp: pair_ok_def in_range_def)

lemma translate_then_reverse:
  assumes "non_overlapping (map snd m)" "\<forall>e\<in>set m. pair_ok e" "translate m x = (y, True)"
  shows "reverse_translate m y = (x, True)"
proof -
  from assms(3) obtain e where e: "find (\<lambda>e. in_range (fst e) x) m = Some e"
    and y: "y = range_start (snd e) + (x - range_start (fst e))"
    by (auto simp: translate_def split: option.splits)
  from e have mem: "e \<in> set m" and inr: "in_range (fst e) x"
    by (auto dest: find_in_range)
  with assms(2) have "in_range (snd e) y"
    unfolding y by (auto intro: translate_in_parent)
  with assms(1) mem have "find (\<lambda>e. in_range (snd e) y) m = Some e"
    by (intro find_unique)
  then show ?thesis
    by (simp add: reverse_translate_def y)
qed

lemma reverse_then_translate:
  assumes "non_overlapping (map fst m)" "\<forall>e\<in>set m. pair_ok e" "reverse_translate m y = (x, True)"
  shows "translate m x = (y, True)"
proof -
  from assms(3) obtain e where e: "find (\<lambda>e. in_range (snd e) y) m = Some e"
    and x: "x = range_start (fst e) + (y - range_start (snd e))"
    by (auto simp: reverse_translate_def split: option.splits)
  from e have mem: "e \<in> set m" and inr: "in_range (snd e) y"
    by (auto dest: find_in_range)
  with assms(2) have "in_range (fst e) x"
    unfolding x by (auto intro: reverse_translate_in_local)
  with assms(1) mem have "find (\<lambda>e. in_range (fst e) x) m = Some e"
    by (intro find_unique)
  then show ?thesis
    by (simp add: translate_def x)
qed

lemma shift_offset:
  fixes a b n x :: NumericID
  assumes "unat a \<le> unat x" "unat x < unat a + unat n" "unat b + unat n \<le> 2 ^ 32"
  shows "unat (b + (x - a)) = unat b + (unat x - unat a)"
proof -
  have le: "a \<le> x" using assms(1) by (simp add: word_le_nat_alt)
  have d: "unat (x - a) = unat x - unat a"
    using le by (rule unat_sub)
  have "unat b + unat (x - a) < 2 ^ 32"
    using assms d by simp
  then show ?thesis
    using d by (simp add: unat_add_lem [THEN iffD1])
qed

lemma translate_offset:
  assumes "pair_ok e" "in_range (fst e) x"
  shows "unat (range_start (snd e) + (x - range_start (fst e)))
           = unat (range_start (snd e)) + (unat x - unat (range_start (fst e)))"
  using assms shift_offset [of "range_start (fst e)" x "range_length (fst e)" "range_start (snd e)"]
  by (simp add: pair_ok_def in_range_def)

lemma reverse_translate_offset:
  assumes "pair_ok e" "in_range (snd e) y"
  shows "unat (range_start (fst e) + (y - range_start (snd e)))
           = unat (range_start (fst e)) + (unat y - unat (range_start (snd e)))"
  using assms shift_offset [of "range_start (snd e)" y "range_length (snd e)" "range_start (fst e)"]
  by (auto simp: pair_ok_def in_range_def)

lemma translate_covered:
  assumes "non_overlapping (map fst m)" "e \<in> set m" "in_range (fst e) x"
  shows "translate m x = (range_start (snd e) + (x - range_start (fst e)), True)"
  using find_unique [of fst m e x] assms by (simp add: translate_def)

lemma reverse_translate_covered:
  assumes "non_overlapping (map snd m)" "e \<in> set m" "in_range (snd e) y"
  shows "reverse_translate m y = (range_start (fst e) + (y - range_start (snd e)), True)"
  using find_unique [of snd m e y] assms by (simp add: reverse_translate_def)

lemma translate_found_iff:
  "snd (translate m x) \<longleftrightarrow> (\<exists>e\<in>set m. in_range (fst e) x)"
  by (auto simp: translate_def find_None_iff split: option.splits dest: find_in_range)

lemma reverse_translate_found_iff:
  "snd (reverse_translate m y) \<longleftrightarrow> (\<exists>e\<in>set m. in_range (snd e) y)"
  by (auto simp: reverse_translate_def find_None_iff split: option.splits dest: find_in_range)

text \<open>
  Claim C5. For the map built from the one pair (local [0,100), parent [1000,1100)),
  \<open>translate\<close> of 50 is 1050 (found), \<open>reverse_translate\<close> of 1050 is 50 (found), and
  \<open>translate\<close> of 150 finds nothing. For every map that \<open>build\<close> accepts, made of
  well-formed pairs: an id is found exactly when a range of the map covers it; an id
  covered by the local range of a pair is translated to the id at the same offset in
  the parent range of that pair, which \<open>reverse_translate\<close> sends back to it; the same
  holds from the parent side; and so \<open>translate\<close> sends \<open>x\<close> to \<open>y\<close> exactly when
  \<open>reverse_translate\<close> sends \<open>y\<close> to \<open>x\<close>.
\<close>

theorem translate_round_trip:
  "(\<exists>m. build [range_pair 0 1000 100] = Inr m \<and>
        translate m 50 = (1050, True) \<and> reverse_translate m 1050 = (50, True) \<and>
        snd (translate m 150) = False) \<and>
   (\<forall>ranges m. build ranges = Inr m \<and> (\<forall>e\<in>set ranges. pair_ok e) \<longrightarrow>
      set m = set ranges \<and>
      (\<forall>x. snd (translate m x) \<longleftrightarrow> (\<exists>e\<in>set m. in_range (fst e) x)) \<and>
      (\<forall>y. snd (reverse_translate m y) \<longleftrightarrow> (\<exists>e\<in>set m. in_range (snd e) y)) \<and>
      (\<forall>e\<in>set m. \<forall>x. in_range (fst e) x \<longrightarrow>
         translate m x = (range_start (snd e) + (x - range_start (fst e)), True) \<and>
         unat (fst (translate m x)) = unat (range_start (snd e)) + (unat x - unat (range_start (fst e))) \<and>
         in_range (snd e) (fst (translate m x)) \<and>
         reverse_translate m (fst (translate m x)) = (x, True)) \<and>
      (\<forall>e\<in>set m. \<forall>y. in_range (snd e) y \<longrightarrow>
         reverse_translate m y = (range_start (fst e) + (y - range_start (snd e)), True) \<and>
         unat (fst (reverse_translate m y)) = unat (range_start (fst e)) + (unat y - unat (range_start (snd e))) \<and>
         in_range (fst e) (fst (reverse_translate m y)) \<and>
         translate m (fst (reverse_translate m y)) = (y, True)) \<and>
      (\<forall>x y. translate m x = (y, True) \<longleftrightarrow> reverse_translate m y = (x, True)))"
proof (intro conjI allI impI)
  show "\<exists>m. build [range_pair 0 1000 100] = Inr m \<and>
        translate m 50 = (1050, True) \<and> reverse_translate m 1050 = (50, True) \<and>
        snd (translate m 150) = False"
    by (simp add: build_def range_pair_def translate_def reverse_translate_def in_range_def)
next
  fix ranges m
  assume "build ranges = Inr m \<and> (\<forall>e\<in>set ranges. pair_ok e)"
  then show "set m = set ranges"
    by (auto dest: build_Inr)
next
  fix ranges m x
  show "snd (translate m x) \<longleftrightarrow> (\<exists>e\<in>set m. in_range (fst e) x)"
    by (rule translate_found_iff)
next
  fix ranges m y
  show "snd (reverse_translate m y) \<longleftrightarrow> (\<exists>e\<in>set m. in_range (snd e) y)"
    by (rule reverse_translate_found_iff)
next
  fix ranges m
  assume "build ranges = Inr m \<and> (\<forall>e\<in>set ranges. pair_ok e)"
  then have m: "non_overlapping (map fst m)" "non_overlapping (map snd m)" "\<forall>e\<in>set m. pair_ok e"
    by (auto dest: build_Inr)
  show "\<forall>e\<in>set m. \<forall>x. in_range (fst e) x \<longrightarrow>
         translate m x = (range_start (snd e) + (x - range_start (fst e)), True) \<and>
         unat (fst (translate m x)) = unat (range_start (snd e)) + (unat x - unat (range_start (fst e))) \<and>
         in_range (snd e) (fst (translate m x)) \<and>
         reverse_translate m (fst (translate m x)) = (x, True)"
  proof (intro ballI allI impI)
    fix e x
    assume e: "e \<in> set m" and x: "in_range (fst e) x"
    from m(3) e have ok: "pair_ok e" by blast
    have t: "translate m x = (range_start (snd e) + (x - range_start (fst e)), True)"
      using m(1) e x by (rule translate_covered)
    have o: "unat (fst (translate m x)) = unat (range_start (snd e)) + (unat x - unat (range_start (fst e)))"
      unfolding t fst_conv using ok x by (rule translate_offset)
    have p: "in_range (snd e) (fst (translate m x))"
      unfolding t fst_conv using ok x by (rule translate_in_parent)
    have r: "reverse_translate m (fst (translate m x)) = (x, True)"
      using m(2) m(3) t by (simp add: translate_then_reverse)
    from t o p r show "translate m x = (range_start (snd e) + (x - range_start (fst e)), True) \<and>
         unat (fst (translate m x)) = unat (range_start (snd e)) + (unat x - unat (range_start (fst e))) \<and>
         in_range (snd e) (fst (translate m x)) \<and>
         reverse_translate m (fst (translate m x)) = (x, True)"
      by (intro conjI)
  qed
  show "\<forall>e\<in>set m. \<forall>y. in_range (snd e) y \<longrightarrow>
         reverse_translate m y = (range_start (fst e) + (y - range_start (snd e)), True) \<and>
         unat (fst (reverse_translate m y)) = unat (range_start (fst e)) + (unat y - unat (range_start (snd e))) \<and>
         in_range (fst e) (fst (reverse_translate m y)) \<and>
         translate m (fst (reverse_translate m y)) = (y, True)"
  proof (intro ballI allI impI)
    fix e y
    assume e: "e \<in> set m" and y: "in_range (snd e) y"
    from m(3) e have ok: "pair_ok e" by blast
    have t: "reverse_translate m y = (range_start (fst e) + (y - range_start (snd e)), True)"
      using m(2) e y by (rule reverse_translate_covered)
    have o: "unat (fst (reverse_translate m y)) = unat (range_start (fst e)) + (unat y - unat (range_start (snd e)))"
      unfolding t fst_conv using ok y by (rule reverse_translate_offset)
    have p: "in_range (fst e) (fst (reverse_translate m y))"
      unfolding t fst_conv using ok y by (rule reverse_translate_in_local)
    have r: "translate m (fst (reverse_translate m y)) = (y, True)"
      using m(1) m(3) t by (simp add: reverse_then_translate)
    from t o p r show "reverse_translate m y = (range_start (fst e) + (y - range_start (snd e)), True) \<and>
         unat (fst (reverse_translate m y)) = unat (range_start (fst e)) + (unat y - unat (range_start (snd e))) \<and>
         in_range (fst e) (fst (reverse_translate m y)) \<and>
         translate m (fst (reverse_translate m y)) = (y, True)"
      by (intro conjI)
  qed
  fix x y
  from m show "translate m x = (y, True) \<longleftrightarrow> reverse_translate m y = (x, True)"
    by (blast intro: translate_then_reverse reverse_then_translate)
qed

theorem translate_round_trip_witness:
  "build [range_pair 0 10 5, range_pair 20 40 5] = Inr [range_pair 0 10 5, range_pair 20 40 5] \<and>
   pair_ok (range_pair 0 10 5) \<and> pair_ok (range_pair 20 40 5) \<and>
   in_range (fst (range_pair 20 40 5)) 23 \<and>
   translate [range_pair 0 10 5, range_pair 20 40 5] 23 = (43, True) \<and>
   in_range (snd (range_pair 20 40 5)) 43 \<and>
   reverse_translate [range_pair 0 10 5, range_pair 20 40 5] 43 = (23, True) \<and>
   \<not> in_range (fst (range_pair 0 10 5)) 7 \<and> \<not> in_range (fst (range_pair 20 40 5)) 7 \<and>
   \<not> snd (translate [range_pair 0 10 5, range_pair 20 40 5] 7)"
proof -
  let ?m = "[range_pair 0 10 5, range_pair 20 40 5]"
  have b: "build ?m = Inr ?m"
    by (simp add: build_def range_pair_def overlaps_def)
  have ok: "pair_ok (range_pair 0 10 5)" "pair_ok (range_pair 20 40 5)"
    by (simp_all add: pair_ok_def range_pair_def)
  then have all_ok: "\<forall>e\<in>set ?m. pair_ok e"
    by simp
  have c: "in_range (fst (range_pair 20 40 5)) 23"
    by (simp add: range_pair_def in_range_def)
  have n: "\<not> in_range (fst (range_pair 0 10 5)) 7" "\<not> in_range (fst (range_pair 20 40 5)) 7"
    by (simp_all add: range_pair_def in_range_def)
  have v: "range_start (snd (range_pair 20 40 5)) + (23 - range_start (fst (range_pair 20 40 5))) = 43"
    by (simp add: range_pair_def)
  from translate_round_trip b all_ok
  have g: "(\<forall>x. snd (translate ?m x) \<longleftrightarrow> (\<exists>e\<in>set ?m. in_range (fst e) x))"
    "(\<forall>e\<in>set ?m. \<forall>x. in_range (fst e) x \<longrightarrow>
         translate ?m x = (range_start (snd e) + (x - range_start (fst e)), True) \<and>
         unat (fst (translate ?m x)) = unat (range_start (snd e)) + (unat x - unat (range_start (fst e))) \<and>
         in_range (snd e) (fst (translate ?m x)) \<and>
         reverse_translate ?m (fst (translate ?m x)) = (x, True))"
    by blast+
  have mem: "range_pair 20 40 5 \<in> set ?m"
    by simp
  note at = g(2) [rule_format, OF mem c]
  from at have t: "translate ?m 23 = (43, True)"
    by (simp only: v)
  from at have "in_range (snd (range_pair 20 40 5)) (fst (translate ?m 23))"
    "reverse_translate ?m (fst (translate ?m 23)) = (23, True)"
    by blast+
  then have p: "in_range (snd (range_pair 20 40 5)) 43" "reverse_translate ?m 43 = (23, True)"
    by (simp_all only: t fst_conv)
  from g(1) n have f: "\<not> snd (translate ?m 7)"
    by simp
  from b ok c t p n f show ?thesis
    by (intro conjI)
qed

end
